theory Spec2Isabelle
  imports Complex_Main "HOL-Library.Multiset"
begin

section \<open>Data model\<close>

text \<open>
  The pipeline of \<^verbatim>\<open>single_generator.py\<close> works on pandas objects. A cell of a numeric
  column is a float that may be NaN: it is modelled as \<open>real option\<close>, \<open>None\<close> being NaN
  (every comparison with NaN is false, \<^verbatim>\<open>pd.isna\<close> is true on it). A date is the number
  of days since some epoch. A row, as \<^verbatim>\<open>DataFrame.apply(..., axis=1)\<close> passes it, is a
  Series indexed by the column names: an association list from column name to cell.
\<close>

type_synonym date = int
type_synonym cell = "real option"
type_synonym row = "(string \<times> cell) list"

text \<open>
  The exceptions the code raises or lets through. The payload of an exception is the list
  of the values interpolated into its message.
\<close>

datatype exn =
    FileNotFoundError "string list"
  | PermissionError
  | ValueError string
  | KeyError string
  | AttributeError string
  | OtherError string

section \<open>Signal rules\<close>

text \<open>
  \<^verbatim>\<open>class SignalGenerator\<close>: the four thresholds, stored by \<^verbatim>\<open>__init__\<close> as they are given.
  The two fear-and-greed thresholds are annotated \<^verbatim>\<open>int\<close>, the two VIX thresholds
  \<^verbatim>\<open>float\<close>.
\<close>

record SignalGenerator =
  buy_fg_threshold :: int
  buy_vix_threshold :: real
  sell_fg_threshold :: int
  sell_vix_threshold :: real

text \<open>
  \<^verbatim>\<open>__init__\<close> has no check and no raise: construction returns the object for every four
  arguments. The result type keeps a place for an exception so that this is a statement
  and not a typing convention.
\<close>

definition SignalGenerator_init :: "int \<Rightarrow> real \<Rightarrow> int \<Rightarrow> real \<Rightarrow> exn + SignalGenerator" where
  "SignalGenerator_init bf bv sf sv =
     Inr \<lparr>buy_fg_threshold = bf, buy_vix_threshold = bv,
          sell_fg_threshold = sf, sell_vix_threshold = sv\<rparr>"

text \<open>\<^verbatim>\<open>SignalGenerator()\<close>: the default arguments 20, 30, 80, 15.\<close>

definition SignalGenerator_default :: "exn + SignalGenerator" where
  "SignalGenerator_default = SignalGenerator_init 20 30 80 15"

text \<open>\<^verbatim>\<open>row[key]\<close> on a Series: the cell, or KeyError when the label is absent.\<close>

definition row_get :: "row \<Rightarrow> string \<Rightarrow> exn + cell" where
  "row_get r k = (case map_of r k of None \<Rightarrow> Inl (KeyError k) | Some c \<Rightarrow> Inr c)"

text \<open>
  \<^verbatim>\<open>generate_signal\<close>. The two reads come first, then the \<^verbatim>\<open>pd.isna\<close> guard, then the
  two rules in the order of the source.
\<close>

definition generate_signal :: "SignalGenerator \<Rightarrow> row \<Rightarrow> exn + string" where
  "generate_signal self r =
     (case row_get r ''cnn_fg'' of
        Inl e \<Rightarrow> Inl e
      | Inr fg \<Rightarrow>
         (case row_get r ''vix'' of
            Inl e \<Rightarrow> Inl e
          | Inr vix \<Rightarrow>
             (case (fg, vix) of
                (None, _) \<Rightarrow> Inr ''HOLD''
              | (_, None) \<Rightarrow> Inr ''HOLD''
              | (Some f, Some v) \<Rightarrow>
                  if f \<le> of_int (buy_fg_threshold self) \<and> v \<ge> buy_vix_threshold self
                    then Inr ''BUY''
                  else if f \<ge> of_int (sell_fg_threshold self) \<and> v \<le> sell_vix_threshold self
                    then Inr ''SELL''
                  else Inr ''HOLD'')))"

text \<open>The generator \<^verbatim>\<open>main\<close> uses: \<^verbatim>\<open>SignalGenerator()\<close>.\<close>

definition default_generator :: SignalGenerator where
  "default_generator =
     \<lparr>buy_fg_threshold = 20, buy_vix_threshold = 30,
      sell_fg_threshold = 80, sell_vix_threshold = 15\<rparr>"

section \<open>The retry decorator\<close>

text \<open>
  \<^verbatim>\<open>retry_on_error(max_retries, delay)\<close>, the same text in both source files. The wrapped
  function reads and changes the world (files, the network), so it is a state transformer
  that raises or returns; what the wrapper does between a failed attempt and the next
  one, the warning it logs and \<^verbatim>\<open>time.sleep(delay)\<close>, is the world's transformer \<open>sleep\<close>. The
  loop \<^verbatim>\<open>for attempt in range(max_retries)\<close> is a recursion on \<open>attempt\<close>. The wrapper's
  result is \<open>Inr (Some v)\<close> for \<^verbatim>\<open>return func(...)\<close>, \<open>Inl e\<close> for the bare
  \<^verbatim>\<open>raise\<close> and \<open>Inr None\<close> for the trailing \<^verbatim>\<open>return None\<close>.
\<close>

function wrapper_loop ::
  "int \<Rightarrow> ('s \<Rightarrow> 's) \<Rightarrow> ('s \<Rightarrow> (exn + 'a) \<times> 's) \<Rightarrow> int \<Rightarrow> 's \<Rightarrow> (exn + 'a option) \<times> 's" where
  "wrapper_loop max_retries sleep func attempt s =
     (if attempt < max_retries then
        (case func s of
           (Inr v, s') \<Rightarrow> (Inr (Some v), s')
         | (Inl e, s') \<Rightarrow>
             if attempt = max_retries - 1 then (Inl e, s')
             else wrapper_loop max_retries sleep func (attempt + 1) (sleep s'))
      else (Inr None, s))"
  by pat_completeness auto
termination
  by (relation "measure (\<lambda>(m, sl, f, a, s). nat (m - a))") auto

declare wrapper_loop.simps [simp del]

definition retry_on_error ::
  "int \<Rightarrow> ('s \<Rightarrow> 's) \<Rightarrow> ('s \<Rightarrow> (exn + 'a) \<times> 's) \<Rightarrow> 's \<Rightarrow> (exn + 'a option) \<times> 's" where
  "retry_on_error max_retries sleep func s = wrapper_loop max_retries sleep func 0 s"

text \<open>
  To speak about the single invocations: \<open>state_before sleep func s i\<close> is the world in
  which invocation \<open>i\<close> (counted from 0) starts when every earlier one has failed and has
  been followed by the sleep, and \<open>attempt_result\<close> is what that invocation gives.
\<close>

fun state_before :: "('s \<Rightarrow> 's) \<Rightarrow> ('s \<Rightarrow> (exn + 'a) \<times> 's) \<Rightarrow> 's \<Rightarrow> nat \<Rightarrow> 's" where
  "state_before sleep func s 0 = s"
| "state_before sleep func s (Suc i) = state_before sleep func (sleep (snd (func s))) i"

definition attempt_result ::
  "('s \<Rightarrow> 's) \<Rightarrow> ('s \<Rightarrow> (exn + 'a) \<times> 's) \<Rightarrow> 's \<Rightarrow> nat \<Rightarrow> exn + 'a" where
  "attempt_result sleep func s i = fst (func (state_before sleep func s i))"

text \<open>
  An operation instrumented with a call counter: the counter is part of the state the
  wrapper threads, so its final value is the number of invocations the wrapper made.
\<close>

definition counted :: "('s \<Rightarrow> 'r \<times> 's) \<Rightarrow> nat \<times> 's \<Rightarrow> 'r \<times> (nat \<times> 's)" where
  "counted func = (\<lambda>(n, s). case func s of (r, s') \<Rightarrow> (r, (Suc n, s')))"

definition counted_sleep :: "('s \<Rightarrow> 's) \<Rightarrow> nat \<times> 's \<Rightarrow> nat \<times> 's" where
  "counted_sleep sleep = (\<lambda>(n, s). (n, sleep s))"

text \<open>
  A sample operation on a world that is a tick counter: locked during the first two
  ticks, then returning 7.
\<close>

definition flaky :: "nat \<Rightarrow> (exn + int) \<times> nat" where
  "flaky n = (if n < 2 then Inl PermissionError else Inr 7, Suc n)"

section \<open>Series, frames and the files they are read from\<close>

text \<open>
  A pandas Series read from a file: its name and its (date, value) entries in file order.
  A DataFrame: the column names and, per index entry, the row as \<^verbatim>\<open>apply\<close> sees it. The
  label column \<^verbatim>\<open>signal\<close> holds strings and is kept beside the numeric frame.

  Both carry the kind of their index: whether it is a DatetimeIndex. The entries of the
  index are dates in the model, so the kind matters where there is no entry:
  \<^verbatim>\<open>read_csv(..., parse_dates=True)\<close> gives a DatetimeIndex when the first column of the
  file parsed as dates, and a file with a header and no rows gives an empty index of dtype
  object. A series keeps the index of the frame it is taken from.
\<close>

record series =
  sname :: string
  sdata :: "(date \<times> cell) list"
  s_datetime :: bool

record dataframe =
  df_columns :: "string list"
  df_rows :: "(date \<times> row) list"
  df_datetime :: bool

definition dates :: "series \<Rightarrow> date list" where
  "dates s = map fst (sdata s)"

definition df_index :: "dataframe \<Rightarrow> date list" where
  "df_index df = map fst (df_rows df)"

text \<open>The cell of a row under a column; a row with no entry for the column reads NaN.\<close>

definition df_cell :: "row \<Rightarrow> string \<Rightarrow> cell" where
  "df_cell r c = (case map_of r c of Some v \<Rightarrow> v | None \<Rightarrow> None)"

text \<open>\<^verbatim>\<open>df[c]\<close>: the column's cells in row order, KeyError for a name that is no column.\<close>

definition column_cells :: "dataframe \<Rightarrow> string \<Rightarrow> cell list" where
  "column_cells df c = map (\<lambda>(d, r). df_cell r c) (df_rows df)"

definition df_col :: "dataframe \<Rightarrow> string \<Rightarrow> exn + cell list" where
  "df_col df c =
     (if c \<in> set (df_columns df) then Inr (column_cells df c) else Inl (KeyError c))"

text \<open>The shape pandas keeps: every row is indexed by the frame's columns.\<close>

definition wf_frame :: "dataframe \<Rightarrow> bool" where
  "wf_frame df = list_all (\<lambda>(d, r). map fst r = df_columns df) (df_rows df)"

text \<open>
  The records the code writes to the logger at the levels WARNING and ERROR, named by the
  place that writes them, and of the records at level INFO the shape of the merged frame.
  The other INFO records are not modelled. The warning about missing values carries the
  counts of the columns that have some.
\<close>

datatype log_record =
    Warning_retry
  | Warning_locked string
  | Error_load string
  | Warning_skipped string
  | Info_shape nat nat
  | Warning_missing "(string \<times> nat) list"
  | Error_negative_vix
  | Error_fg_range
  | Warning_date_gap
  | Error_main


text \<open>
  What the code asks of its environment, as parameters over a world \<open>'w\<close>:
  \<^verbatim>\<open>path.exists()\<close>, \<^verbatim>\<open>pd.read_csv(path, index_col=0, parse_dates=True)\<close>,
  \<^verbatim>\<open>time.sleep(1)\<close> and the logger, which takes a record into the world. A path below
  \<^verbatim>\<open>RAW_DIR\<close> is given by its file name.
\<close>

record 'w filesystem =
  path_exists :: "string \<Rightarrow> 'w \<Rightarrow> bool"
  read_csv :: "string \<Rightarrow> 'w \<Rightarrow> (exn + dataframe) \<times> 'w"
  time_sleep :: "'w \<Rightarrow> 'w"
  logger :: "log_record \<Rightarrow> 'w \<Rightarrow> 'w"

text \<open>
  The tail of \<^verbatim>\<open>_load_series\<close> once the file is read: the renaming is the identity, a
  frame with a number of data columns other than one is a ValueError, the series is the
  first column named \<^verbatim>\<open>value_col or series.name\<close>.
\<close>

definition series_of_frame :: "string \<Rightarrow> string option \<Rightarrow> dataframe \<Rightarrow> exn + series" where
  "series_of_frame path value_col df =
     (case df_columns df of
        [c] \<Rightarrow>
          Inr \<lparr>sname = (case value_col of None \<Rightarrow> c | Some n \<Rightarrow> if n = [] then c else n),
               sdata = map (\<lambda>(d, r). (d, df_cell r c)) (df_rows df),
               s_datetime = df_datetime df\<rparr>
      | _ \<Rightarrow> Inl (ValueError (''Expected exactly 1 data column in '' @ path)))"

text \<open>
  The \<^verbatim>\<open>try\<close> block of \<^verbatim>\<open>_load_series\<close>: a missing file is a FileNotFoundError naming
  the path; a PermissionError of the first read is followed by a warning, one sleep and
  one more read.
\<close>

definition load_series_try ::
  "'w filesystem \<Rightarrow> string \<Rightarrow> string option \<Rightarrow> 'w \<Rightarrow> (exn + series) \<times> 'w" where
  "load_series_try fs path value_col w =
     (if \<not> path_exists fs path w then (Inl (FileNotFoundError [path]), w)
      else
        (case read_csv fs path w of
           (Inr df, w1) \<Rightarrow> (series_of_frame path value_col df, w1)
         | (Inl e, w1) \<Rightarrow>
             if e = PermissionError then
               (case read_csv fs path (time_sleep fs (logger fs (Warning_locked path) w1)) of
                  (Inr df, w2) \<Rightarrow> (series_of_frame path value_col df, w2)
                | (Inl e2, w2) \<Rightarrow> (Inl e2, w2))
             else (Inl e, w1)))"

text \<open>
  The body of \<^verbatim>\<open>_load_series\<close>: the block above, and
  \<^verbatim>\<open>except Exception as e: logger.error(...); raise\<close>.
\<close>

definition load_series_body ::
  "'w filesystem \<Rightarrow> string \<Rightarrow> string option \<Rightarrow> 'w \<Rightarrow> (exn + series) \<times> 'w" where
  "load_series_body fs path value_col w =
     (case load_series_try fs path value_col w of
        (Inr s, w') \<Rightarrow> (Inr s, w')
      | (Inl e, w') \<Rightarrow> (Inl e, logger fs (Error_load path) w'))"

text \<open>
  \<^verbatim>\<open>@retry_on_error(max_retries=3, delay=1)\<close> around the body; between two attempts the
  wrapper logs its warning and sleeps.
\<close>

definition load_series ::
  "'w filesystem \<Rightarrow> string \<Rightarrow> string option \<Rightarrow> 'w \<Rightarrow> (exn + series option) \<times> 'w" where
  "load_series fs path value_col =
     retry_on_error 3 (\<lambda>w. time_sleep fs (logger fs Warning_retry w))
       (load_series_body fs path value_col)"

section \<open>Loading the data sources\<close>

text \<open>
  An entry of \<^verbatim>\<open>data_sources\<close> has the key \<^verbatim>\<open>file\<close> or the key \<^verbatim>\<open>files\<close>, and \<^verbatim>\<open>col\<close>
  and \<^verbatim>\<open>required\<close>. \<^verbatim>\<open>series_dict\<close> is an insertion-ordered dictionary; its values are
  what \<^verbatim>\<open>_load_series\<close> returned.
\<close>

datatype source_config =
    OneFile string string bool
  | ManyFiles "string list" string bool

type_synonym series_dict = "(string \<times> series option) list"

fun dict_set :: "('k \<times> 'v) list \<Rightarrow> 'k \<Rightarrow> 'v \<Rightarrow> ('k \<times> 'v) list" where
  "dict_set [] k v = [(k, v)]"
| "dict_set ((k', v') # kvs) k v =
     (if k' = k then (k, v) # kvs else (k', v') # dict_set kvs k v)"

definition is_FileNotFoundError :: "exn \<Rightarrow> bool" where
  "is_FileNotFoundError e = (case e of FileNotFoundError _ \<Rightarrow> True | _ \<Rightarrow> False)"

text \<open>
  The inner loop \<^verbatim>\<open>for file in config["files"]\<close>: a load that returns stores the series
  and breaks, \<^verbatim>\<open>except FileNotFoundError: continue\<close> goes to the next file, and any
  other exception leaves the loop and the function.
\<close>

fun try_files ::
  "'w filesystem \<Rightarrow> string \<Rightarrow> string list \<Rightarrow> string \<Rightarrow> series_dict \<Rightarrow> 'w \<Rightarrow>
   (exn + series_dict) \<times> 'w" where
  "try_files fs key [] col sd w = (Inr sd, w)"
| "try_files fs key (file # files) col sd w =
     (case load_series fs file (Some col) w of
        (Inr s, w') \<Rightarrow> (Inr (dict_set sd key s), w')
      | (Inl e, w') \<Rightarrow>
          if is_FileNotFoundError e then try_files fs key files col sd w'
          else (Inl e, w'))"

text \<open>One turn of the outer loop \<^verbatim>\<open>for key, config in data_sources.items()\<close>.\<close>

definition load_source ::
  "'w filesystem \<Rightarrow> string \<Rightarrow> source_config \<Rightarrow> series_dict \<Rightarrow> 'w \<Rightarrow>
   (exn + series_dict) \<times> 'w" where
  "load_source fs key config sd w =
     (case config of
        ManyFiles files col required \<Rightarrow>
          (case try_files fs key files col sd w of
             (Inl e, w') \<Rightarrow> (Inl e, w')
           | (Inr sd', w') \<Rightarrow>
               if map_of sd' key = None \<and> required
               then (Inl (FileNotFoundError [key]), w')
               else (Inr sd', w'))
      | OneFile file col required \<Rightarrow>
          (case load_series fs file (Some col) w of
             (Inr s, w') \<Rightarrow> (Inr (dict_set sd key s), w')
           | (Inl e, w') \<Rightarrow>
               if is_FileNotFoundError e then
                 (if required then (Inl e, w')
                  else (Inr sd, logger fs (Warning_skipped key) w'))
               else (Inl e, w')))"

fun load_all ::
  "'w filesystem \<Rightarrow> (string \<times> source_config) list \<Rightarrow> series_dict \<Rightarrow> 'w \<Rightarrow>
   (exn + series_dict) \<times> 'w" where
  "load_all fs [] sd w = (Inr sd, w)"
| "load_all fs ((key, config) # rest) sd w =
     (case load_source fs key config sd w of
        (Inl e, w') \<Rightarrow> (Inl e, w')
      | (Inr sd', w') \<Rightarrow> load_all fs rest sd' w')"

definition data_sources :: "(string \<times> source_config) list" where
  "data_sources =
     [(''spy'', OneFile ''spy.csv'' ''spy_price'' True),
      (''vix'', OneFile ''vix.csv'' ''vix'' True),
      (''cnn_fg'',
         ManyFiles [''fear_greed_historical.csv'', ''cnn_fear_greed_current.csv'',
                    ''cnn_fear_greed.csv'']
           ''cnn_fg'' True)]"

text \<open>
  To state what the inner loop does: the outcomes of loading every candidate in turn, each
  load starting in the world the previous one left, the world after all of them, and the
  outcomes the loop passes over (\<^verbatim>\<open>except FileNotFoundError: continue\<close>).
\<close>

fun load_outcomes ::
  "'w filesystem \<Rightarrow> string list \<Rightarrow> string \<Rightarrow> 'w \<Rightarrow> ((exn + series option) \<times> 'w) list" where
  "load_outcomes fs [] col w = []"
| "load_outcomes fs (file # files) col w =
     load_series fs file (Some col) w #
     load_outcomes fs files col (snd (load_series fs file (Some col) w))"

fun end_world :: "'w filesystem \<Rightarrow> string list \<Rightarrow> string \<Rightarrow> 'w \<Rightarrow> 'w" where
  "end_world fs [] col w = w"
| "end_world fs (file # files) col w =
     end_world fs files col (snd (load_series fs file (Some col) w))"

definition file_missing :: "(exn + series option) \<times> 'w \<Rightarrow> bool" where
  "file_missing x = (case fst x of Inl e \<Rightarrow> is_FileNotFoundError e | Inr s \<Rightarrow> False)"

section \<open>Merging\<close>

text \<open>
  \<^verbatim>\<open>pd.concat(series_dict.values(), axis=1, join="inner").sort_index()\<close>. The two calls
  are pandas' and not code of this repository; they are modelled as pandas documents them.
  \<^verbatim>\<open>concat\<close> drops \<^verbatim>\<open>None\<close> objects and raises ValueError when nothing is left; with
  \<^verbatim>\<open>join="inner"\<close> the index of the result is the intersection of the objects' indexes,
  each object becomes the column of its name, and two or more objects of which one has a
  repeated index label cannot be aligned (ValueError). The intersection of DatetimeIndexes
  is a DatetimeIndex, also when it is empty; with an index of another kind among them it
  is not one. \<^verbatim>\<open>sort_index\<close> orders the rows by index, ascending.
\<close>

definition series_cell :: "series \<Rightarrow> date \<Rightarrow> cell" where
  "series_cell s d = (case map_of (sdata s) d of Some v \<Rightarrow> v | None \<Rightarrow> None)"

definition inner_index :: "series list \<Rightarrow> date list" where
  "inner_index objs =
     (case objs of
        [] \<Rightarrow> []
      | s # ss \<Rightarrow> filter (\<lambda>d. \<forall>t \<in> set ss. d \<in> set (dates t)) (dates s))"

definition concat_inner :: "series option list \<Rightarrow> exn + dataframe" where
  "concat_inner values =
     (let objs = concat (map (\<lambda>v. case v of None \<Rightarrow> [] | Some s \<Rightarrow> [s]) values) in
      if objs = [] then Inl (ValueError ''No objects to concatenate'')
      else if 2 \<le> length objs \<and> (\<exists>s \<in> set objs. \<not> distinct (dates s))
        then Inl (ValueError ''cannot reindex on an axis with duplicate labels'')
      else
        Inr \<lparr>df_columns = map sname objs,
             df_rows =
               (if length objs = 1 then map (\<lambda>(d, v). (d, [(sname (hd objs), v)])) (sdata (hd objs))
                else map (\<lambda>d. (d, map (\<lambda>s. (sname s, series_cell s d)) objs))
                       (inner_index objs)),
             df_datetime = list_all s_datetime objs\<rparr>)"

definition sort_index :: "dataframe \<Rightarrow> dataframe" where
  "sort_index df = df\<lparr>df_rows := sort_key fst (df_rows df)\<rparr>"

definition merge_series :: "series option list \<Rightarrow> exn + dataframe" where
  "merge_series values =
     (case concat_inner values of Inl e \<Rightarrow> Inl e | Inr df \<Rightarrow> Inr (sort_index df))"

text \<open>The index of the merged frame of a list of series, empty when the merge raises.\<close>

definition merged_index :: "series list \<Rightarrow> date list" where
  "merged_index ss = (case merge_series (map Some ss) of Inl e \<Rightarrow> [] | Inr df \<Rightarrow> df_index df)"

section \<open>Validation\<close>

text \<open>Comparisons of a cell with a number: false on NaN.\<close>

definition cell_lt :: "cell \<Rightarrow> real \<Rightarrow> bool" where
  "cell_lt c x = (case c of None \<Rightarrow> False | Some v \<Rightarrow> v < x)"

definition cell_gt :: "cell \<Rightarrow> real \<Rightarrow> bool" where
  "cell_gt c x = (case c of None \<Rightarrow> False | Some v \<Rightarrow> v > x)"

text \<open>\<^verbatim>\<open>df.isnull().sum()\<close>: per column, the number of NaN cells.\<close>

definition isnull_sum :: "dataframe \<Rightarrow> (string \<times> nat) list" where
  "isnull_sum df =
     map (\<lambda>c. (c, length (filter (\<lambda>v. v = None) (column_cells df c)))) (df_columns df)"

text \<open>
  The first block of \<^verbatim>\<open>_validate_data\<close>: one warning, listing the columns whose count is
  positive, when \<^verbatim>\<open>missing_data.any()\<close>.
\<close>

definition missing_warning :: "dataframe \<Rightarrow> log_record list" where
  "missing_warning df =
     (let missing_data = isnull_sum df in
      if list_ex (\<lambda>(c, n). n > 0) missing_data
      then [Warning_missing (filter (\<lambda>(c, n). n > 0) missing_data)] else [])"

text \<open>
  \<^verbatim>\<open>df.index.to_series().diff()\<close> and its \<^verbatim>\<open>max()\<close> on a DatetimeIndex: the
  differences of consecutive index entries, in days; the maximum of none is NaT, whose
  \<^verbatim>\<open>days\<close> is NaN and compares false.
\<close>

fun date_diff :: "date list \<Rightarrow> int list" where
  "date_diff (x # y # zs) = (y - x) # date_diff (y # zs)"
| "date_diff _ = []"

definition max_days :: "int list \<Rightarrow> int option" where
  "max_days ds = (case ds of [] \<Rightarrow> None | g # gs \<Rightarrow> Some (fold max gs g))"

definition large_gap :: "dataframe \<Rightarrow> bool" where
  "large_gap df =
     (case max_days (date_diff (df_index df)) of None \<Rightarrow> False | Some g \<Rightarrow> g > 5)"

text \<open>
  \<^verbatim>\<open>date_diff.max().days > 5\<close>. On a DatetimeIndex the differences are Timedeltas and the
  test is \<open>large_gap\<close>. On an index of another kind the maximum is a number (NaN when
  there is no difference), which has no attribute \<^verbatim>\<open>days\<close>: AttributeError.
\<close>

definition gap_check :: "dataframe \<Rightarrow> exn + bool" where
  "gap_check df =
     (if df_datetime df then Inr (large_gap df) else Inl (AttributeError ''days''))"

definition validate_data :: "dataframe \<Rightarrow> log_record list \<times> (exn + unit)" where
  "validate_data df =
     (let log1 = missing_warning df in
        case df_col df ''vix'' of
          Inl e \<Rightarrow> (log1, Inl e)
        | Inr vix \<Rightarrow>
            if list_ex (\<lambda>v. cell_lt v 0) vix
            then (log1 @ [Error_negative_vix], Inl (ValueError ''Invalid VIX data''))
            else
              (case df_col df ''cnn_fg'' of
                 Inl e \<Rightarrow> (log1, Inl e)
               | Inr fg \<Rightarrow>
                   if list_ex (\<lambda>v. cell_lt v 0) fg \<or> list_ex (\<lambda>v. cell_gt v 100) fg
                   then (log1 @ [Error_fg_range],
                         Inl (ValueError ''Invalid CNN Fear & Greed data''))
                   else
                     (case gap_check df of
                        Inl e \<Rightarrow> (log1, Inl e)
                      | Inr gap \<Rightarrow>
                          (log1 @ (if gap then [Warning_date_gap] else []), Inr ()))))"

section \<open>Statistics\<close>

text \<open>
  \<^verbatim>\<open>_print_signal_stats\<close>, on the column \<^verbatim>\<open>df["signal"]\<close>: the loop over the signals with
  its two variables, and the average that is computed and logged when \<^verbatim>\<open>hold_periods\<close>
  is not empty. The function returns nothing; the model returns the list and the average
  it logs, if any. The table of \<^verbatim>\<open>value_counts\<close> is not modelled.
\<close>

fun hold_loop :: "string list \<Rightarrow> int list \<Rightarrow> int \<Rightarrow> int list" where
  "hold_loop [] hold_periods current_period = hold_periods"
| "hold_loop (signal # rest) hold_periods current_period =
     (if signal = ''HOLD'' then hold_loop rest hold_periods (current_period + 1)
      else hold_loop rest
             (if current_period > 0 then hold_periods @ [current_period] else hold_periods) 0)"

definition print_signal_stats :: "string list \<Rightarrow> int list \<times> real option" where
  "print_signal_stats signals =
     (let hold_periods = hold_loop signals [] 0 in
      (hold_periods,
       if hold_periods \<noteq> []
       then Some (real_of_int (sum_list hold_periods) / real (length hold_periods))
       else None))"

section \<open>The main workflow\<close>

text \<open>
  \<^verbatim>\<open>df.apply(generator.generate_signal, axis=1)\<close>: the function on every row in order,
  the first exception leaving the loop; no row, no call.
\<close>

fun apply_rows :: "(row \<Rightarrow> exn + 'b) \<Rightarrow> (date \<times> row) list \<Rightarrow> exn + 'b list" where
  "apply_rows f [] = Inr []"
| "apply_rows f ((d, r) # rest) =
     (case f r of
        Inl e \<Rightarrow> Inl e
      | Inr x \<Rightarrow> (case apply_rows f rest of Inl e \<Rightarrow> Inl e | Inr xs \<Rightarrow> Inr (x # xs)))"

text \<open>
  Steps 3 to 7 of \<^verbatim>\<open>main\<close> on the loaded series: merge, log the shape, validate, label,
  statistics, and the table written to \<^verbatim>\<open>signals.csv\<close> (the frame and its signal column).
\<close>

record signals_csv =
  frame :: dataframe
  signal :: "string list"
  stats :: "int list \<times> real option"

definition run_stages :: "dataframe \<Rightarrow> log_record list \<times> (exn + signals_csv)" where
  "run_stages df =
     (let log0 = [Info_shape (length (df_rows df)) (length (df_columns df))] in
      case validate_data df of
        (lg, Inl e) \<Rightarrow> (log0 @ lg, Inl e)
      | (lg, Inr u) \<Rightarrow>
          (case SignalGenerator_default of
             Inl e \<Rightarrow> (log0 @ lg, Inl e)
           | Inr generator \<Rightarrow>
               (case apply_rows (generate_signal generator) (df_rows df) of
                  Inl e \<Rightarrow> (log0 @ lg, Inl e)
                | Inr sig \<Rightarrow>
                    (log0 @ lg,
                     Inr \<lparr>frame = df, signal = sig, stats = print_signal_stats sig\<rparr>))))"

definition process :: "series_dict \<Rightarrow> log_record list \<times> (exn + signals_csv)" where
  "process sd =
     (case merge_series (map snd sd) of
        Inl e \<Rightarrow> ([], Inl e)
      | Inr df \<Rightarrow> run_stages df)"

text \<open>
  \<^verbatim>\<open>main\<close>: the records of the stages go to the logger in their order, and an exception
  of any step is logged by \<^verbatim>\<open>except Exception as e: logger.error(...)\<close> and raised again.
\<close>

definition main :: "'w filesystem \<Rightarrow> 'w \<Rightarrow> (exn + signals_csv) \<times> 'w" where
  "main fs w =
     (case load_all fs data_sources [] w of
        (Inl e, w') \<Rightarrow> (Inl e, logger fs Error_main w')
      | (Inr sd, w') \<Rightarrow>
          (case process sd of
             (lg, Inl e) \<Rightarrow> (Inl e, logger fs Error_main (fold (logger fs) lg w'))
           | (lg, Inr out) \<Rightarrow> (Inr out, fold (logger fs) lg w')))"

section \<open>Sample inputs\<close>

text \<open>Frames on which the statements below are evaluated; their index is a DatetimeIndex.\<close>

definition frame_nulls :: dataframe where
  "frame_nulls =
     \<lparr>df_columns = [''spy_price'', ''vix'', ''cnn_fg''],
      df_rows =
        [(0, [(''spy_price'', Some 470), (''vix'', None), (''cnn_fg'', Some 15)]),
         (1, [(''spy_price'', None), (''vix'', Some 32), (''cnn_fg'', None)]),
         (4, [(''spy_price'', Some 480), (''vix'', Some 10), (''cnn_fg'', Some 85)])],
      df_datetime = True\<rparr>"

definition frame_nulls_gap :: dataframe where
  "frame_nulls_gap =
     \<lparr>df_columns = [''spy_price'', ''vix'', ''cnn_fg''],
      df_rows =
        [(0, [(''spy_price'', Some 470), (''vix'', None), (''cnn_fg'', Some 15)]),
         (1, [(''spy_price'', Some 475), (''vix'', Some 12), (''cnn_fg'', Some 50)]),
         (10, [(''spy_price'', Some 480), (''vix'', Some 10), (''cnn_fg'', Some 85)])],
      df_datetime = True\<rparr>"

definition frame_negative_vix :: dataframe where
  "frame_negative_vix =
     \<lparr>df_columns = [''spy_price'', ''vix'', ''cnn_fg''],
      df_rows =
        [(0, [(''spy_price'', Some 470), (''vix'', Some (-1)), (''cnn_fg'', Some 15)])],
      df_datetime = True\<rparr>"

text \<open>Three series with shuffled, descending and ascending dates; dates 2 and 3 are in all.\<close>

definition series_a :: series where
  "series_a = \<lparr>sname = ''spy_price'', sdata = [(3, Some 470), (1, Some 460), (2, Some 465)],
       s_datetime = True\<rparr>"

definition series_b :: series where
  "series_b = \<lparr>sname = ''vix'', sdata = [(5, Some 12), (3, Some 32), (2, Some 10)],
       s_datetime = True\<rparr>"

definition series_c :: series where
  "series_c = \<lparr>sname = ''cnn_fg'', sdata = [(2, Some 85), (3, Some 15), (9, Some 50)],
       s_datetime = True\<rparr>"

text \<open>
  The frame \<^verbatim>\<open>read_csv\<close> gives for a file with one data column and the given rows.
\<close>

definition csv_frame :: "string \<Rightarrow> (date \<times> real) list \<Rightarrow> dataframe" where
  "csv_frame c kvs =
     \<lparr>df_columns = [c], df_rows = map (\<lambda>(d, v). (d, [(c, Some v)])) kvs,
      df_datetime = (kvs \<noteq> [])\<rparr>"

text \<open>
  A file system that never changes and keeps no log: \<^verbatim>\<open>good.csv\<close> is a file with one
  data column, \<^verbatim>\<open>bad.csv\<close> a header with two, and no other file exists.
\<close>

definition fs_sample :: "unit filesystem" where
  "fs_sample =
     \<lparr>path_exists = (\<lambda>p w. p = ''bad.csv'' \<or> p = ''good.csv''),
      read_csv = (\<lambda>p w.
        (if p = ''good.csv'' then Inr (csv_frame ''value'' [(1, 15), (2, 85)])
         else if p = ''bad.csv''
           then Inr \<lparr>df_columns = [''a'', ''b''], df_rows = [], df_datetime = False\<rparr>
         else Inl (FileNotFoundError [p]), w)),
      time_sleep = (\<lambda>w. w),
      logger = (\<lambda>l w. w)\<rparr>"




text \<open>
  A file system, with the log as its world, whose three primary files have a header and
  no rows.
\<close>

definition fs_headers :: "log_record list filesystem" where
  "fs_headers =
     \<lparr>path_exists =
        (\<lambda>p w. p = ''spy.csv'' \<or> p = ''vix.csv'' \<or> p = ''fear_greed_historical.csv''),
      read_csv = (\<lambda>p w.
        (if p = ''spy.csv'' then Inr (csv_frame ''Adj Close'' [])
         else if p = ''vix.csv'' then Inr (csv_frame ''Adj Close'' [])
         else if p = ''fear_greed_historical.csv'' then Inr (csv_frame ''cnn_fg'' [])
         else Inl (FileNotFoundError [p]), w)),
      time_sleep = (\<lambda>w. w),
      logger = (\<lambda>l w. w @ [l])\<rparr>"

section \<open>Properties of the signal rules\<close>

lemma SignalGenerator_default_eq: "SignalGenerator_default = Inr default_generator"
  by (simp add: SignalGenerator_default_def SignalGenerator_init_def default_generator_def)

text \<open>
  Claim C1. On a row that has the two columns, \<^verbatim>\<open>generate_signal\<close> returns HOLD when
  the fear value or the volatility value is NaN; otherwise BUY when fear is at most the
  buy fear threshold and volatility at least the buy volatility threshold; otherwise
  SELL when fear is at least the sell fear threshold and volatility at most the sell
  volatility threshold; otherwise HOLD. The bounds are inclusive, the result depends on
  no other entry of the row, and with the default thresholds the rules read
  \<open>fear \<le> 20 \<and> vix \<ge> 30\<close> and \<open>fear \<ge> 80 \<and> vix \<le> 15\<close>.
\<close>

theorem generate_signal_rules:
  assumes fg: "map_of r ''cnn_fg'' = Some fg" and vix: "map_of r ''vix'' = Some vix"
  shows "((fg = None \<or> vix = None) \<longrightarrow> generate_signal g r = Inr ''HOLD'') \<and>
         (\<forall>f v. fg = Some f \<and> vix = Some v \<longrightarrow>
            (f \<le> of_int (buy_fg_threshold g) \<and> buy_vix_threshold g \<le> v \<longrightarrow>
               generate_signal g r = Inr ''BUY'') \<and>
            (\<not> (f \<le> of_int (buy_fg_threshold g) \<and> buy_vix_threshold g \<le> v) \<and>
             of_int (sell_fg_threshold g) \<le> f \<and> v \<le> sell_vix_threshold g \<longrightarrow>
               generate_signal g r = Inr ''SELL'') \<and>
            (\<not> (f \<le> of_int (buy_fg_threshold g) \<and> buy_vix_threshold g \<le> v) \<and>
             \<not> (of_int (sell_fg_threshold g) \<le> f \<and> v \<le> sell_vix_threshold g) \<longrightarrow>
               generate_signal g r = Inr ''HOLD'') \<and>
            generate_signal default_generator r =
              Inr (if f \<le> 20 \<and> 30 \<le> v then ''BUY''
                   else if 80 \<le> f \<and> v \<le> 15 then ''SELL'' else ''HOLD'')) \<and>
         (\<forall>r'. map_of r' ''cnn_fg'' = Some fg \<and> map_of r' ''vix'' = Some vix \<longrightarrow>
            generate_signal g r' = generate_signal g r)"
  using fg vix
  by (auto simp: generate_signal_def row_get_def default_generator_def split: option.splits)

text \<open>
  The boundary of the spec, on rows that carry a third field: fear 20 with volatility 30
  is BUY, fear 21 with volatility 30 is HOLD, whatever the price field holds.
\<close>

theorem generate_signal_rules_witness:
  "generate_signal default_generator
     [(''spy_price'', Some 470), (''vix'', Some 30), (''cnn_fg'', Some 20)] = Inr ''BUY'' \<and>
   generate_signal default_generator
     [(''spy_price'', None), (''vix'', Some 30), (''cnn_fg'', Some 21)] = Inr ''HOLD'' \<and>
   generate_signal default_generator
     [(''spy_price'', Some 480), (''vix'', Some 10), (''cnn_fg'', Some 85)] = Inr ''SELL'' \<and>
   generate_signal default_generator
     [(''spy_price'', Some 480), (''vix'', None), (''cnn_fg'', Some 85)] = Inr ''HOLD''"
proof -
  have a: "generate_signal default_generator
     [(''spy_price'', Some 470), (''vix'', Some 30), (''cnn_fg'', Some 20)] = Inr ''BUY''"
    using generate_signal_rules [of "[(''spy_price'', Some 470), (''vix'', Some 30), (''cnn_fg'', Some 20)]"
        "Some 20" "Some 30" default_generator]
    by simp
  have b: "generate_signal default_generator
     [(''spy_price'', None), (''vix'', Some 30), (''cnn_fg'', Some 21)] = Inr ''HOLD''"
    using generate_signal_rules [of "[(''spy_price'', None), (''vix'', Some 30), (''cnn_fg'', Some 21)]"
        "Some 21" "Some 30" default_generator]
    by simp
  have c: "generate_signal default_generator
     [(''spy_price'', Some 480), (''vix'', Some 10), (''cnn_fg'', Some 85)] = Inr ''SELL''"
    using generate_signal_rules [of "[(''spy_price'', Some 480), (''vix'', Some 10), (''cnn_fg'', Some 85)]"
        "Some 85" "Some 10" default_generator]
    by simp
  have d: "generate_signal default_generator
     [(''spy_price'', Some 480), (''vix'', None), (''cnn_fg'', Some 85)] = Inr ''HOLD''"
    using generate_signal_rules [of "[(''spy_price'', Some 480), (''vix'', None), (''cnn_fg'', Some 85)]"
        "Some 85" None default_generator]
    by simp
  from a b c d show ?thesis by simp
qed


lemma apply_rows_total:
  assumes "\<forall>(d, r) \<in> set rows. \<exists>x. f r = Inr x"
  shows "apply_rows f rows = Inr (map (\<lambda>(d, r). projr (f r)) rows)"
  using assms by (induction rows) auto

lemma row_get_present:
  assumes "c \<in> set (map fst r)"
  shows "row_get r c = Inr (df_cell r c)"
proof -
  from assms obtain v where "map_of r c = Some v"
    by (metis list.set_map map_of_eq_None_iff not_None_eq)
  then show ?thesis by (simp add: row_get_def df_cell_def)
qed

lemma generate_signal_present:
  assumes "''vix'' \<in> set (map fst r)" and "''cnn_fg'' \<in> set (map fst r)"
  shows "\<exists>l. generate_signal g r = Inr l \<and>
             (df_cell r ''vix'' = None \<or> df_cell r ''cnn_fg'' = None \<longrightarrow> l = ''HOLD'')"
  by (auto simp: generate_signal_def row_get_present[OF assms(1)] row_get_present[OF assms(2)]
           split: option.splits)


section \<open>Construction of the generator\<close>




section \<open>Properties of the statistics\<close>

text \<open>
  Claim C2 asks for the lengths of all maximal runs of HOLD, the run that ends the
  sequence included, and gives [2, 1, 3] with mean 2.0 for the sequence below. The loop
  appends a run only when a label other than HOLD follows it, and nothing after the loop
  appends the run still open: the code gives [2, 1] and logs the mean 1.5.
\<close>

theorem print_signal_stats_spec_example:
  "print_signal_stats
     [''HOLD'', ''HOLD'', ''BUY'', ''HOLD'', ''SELL'', ''HOLD'', ''HOLD'', ''HOLD''] =
   ([2, 1], Some (3 / 2))"
  by (simp add: print_signal_stats_def)

text \<open>The same defect in general: trailing HOLD labels never change the result.\<close>

lemma hold_loop_all_hold:
  "hold_loop (replicate n ''HOLD'') hp c = hp"
  by (induction n arbitrary: c) simp_all

lemma hold_loop_trailing_hold:
  "hold_loop (xs @ replicate n ''HOLD'') hp c = hold_loop xs hp c"
  by (induction xs arbitrary: hp c) (simp_all add: hold_loop_all_hold)

lemma print_signal_stats_only_hold:
  "print_signal_stats (replicate n ''HOLD'') = ([], None)"
  by (simp add: print_signal_stats_def hold_loop_all_hold)

section \<open>Properties of the validation\<close>

lemma validate_data_cases:
  assumes "''vix'' \<in> set (df_columns df)" and "''cnn_fg'' \<in> set (df_columns df)"
  shows "validate_data df =
     (if list_ex (\<lambda>v. cell_lt v 0) (column_cells df ''vix'')
      then (missing_warning df @ [Error_negative_vix], Inl (ValueError ''Invalid VIX data''))
      else if list_ex (\<lambda>v. cell_lt v 0) (column_cells df ''cnn_fg'') \<or>
              list_ex (\<lambda>v. cell_gt v 100) (column_cells df ''cnn_fg'')
      then (missing_warning df @ [Error_fg_range],
            Inl (ValueError ''Invalid CNN Fear & Greed data''))
      else if df_datetime df
      then (missing_warning df @ (if large_gap df then [Warning_date_gap] else []), Inr ())
      else (missing_warning df, Inl (AttributeError ''days'')))"
  using assms by (simp add: validate_data_def df_col_def gap_check_def Let_def)

lemma cell_lt_iff: "cell_lt c x \<longleftrightarrow> (\<exists>v. c = Some v \<and> v < x)"
  by (cases c) (simp_all add: cell_lt_def)

lemma cell_gt_iff: "cell_gt c x \<longleftrightarrow> (\<exists>v. c = Some v \<and> x < v)"
  by (cases c) (simp_all add: cell_gt_def)

text \<open>The differences the gap test looks at, and its maximum, in terms of the index.\<close>

lemma set_date_diff:
  "set (date_diff xs) = {xs ! Suc i - xs ! i | i. Suc i < length xs}"
proof (induction xs rule: date_diff.induct)
  case (1 x y zs)
  have "{(x # y # zs) ! Suc i - (x # y # zs) ! i | i. Suc i < length (x # y # zs)} =
        insert (y - x) {(y # zs) ! Suc i - (y # zs) ! i | i. Suc i < length (y # zs)}"
    (is "?L = insert _ ?R")
  proof (intro set_eqI iffI)
    fix d assume "d \<in> ?L"
    then obtain i where i: "Suc i < length (x # y # zs)"
      and d: "d = (x # y # zs) ! Suc i - (x # y # zs) ! i" by blast
    show "d \<in> insert (y - x) ?R"
    proof (cases i)
      case 0
      with d show ?thesis by simp
    next
      case (Suc j)
      with i d have "Suc j < length (y # zs)" "d = (y # zs) ! Suc j - (y # zs) ! j"
        by simp_all
      then show ?thesis by blast
    qed
  next
    fix d assume "d \<in> insert (y - x) ?R"
    then consider "d = y - x" | "d \<in> ?R" by blast
    then show "d \<in> ?L"
    proof cases
      case 1
      then have "d = (x # y # zs) ! Suc 0 - (x # y # zs) ! 0" "Suc 0 < length (x # y # zs)"
        by simp_all
      then show ?thesis by blast
    next
      case 2
      then obtain j where "Suc j < length (y # zs)" "d = (y # zs) ! Suc j - (y # zs) ! j"
        by blast
      then have "d = (x # y # zs) ! Suc (Suc j) - (x # y # zs) ! Suc j"
        "Suc (Suc j) < length (x # y # zs)" by simp_all
      then show ?thesis by blast
    qed
  qed
  with 1 show ?case by simp
qed simp_all

lemma fold_max_gt:
  "fold max gs g > (k::int) \<longleftrightarrow> g > k \<or> (\<exists>d \<in> set gs. d > k)"
  by (induction gs arbitrary: g) auto

lemma max_days_gt:
  "(case max_days ds of None \<Rightarrow> False | Some g \<Rightarrow> g > k) \<longleftrightarrow> (\<exists>d \<in> set ds. d > k)"
  by (cases ds) (simp_all add: max_days_def fold_max_gt)

lemma large_gap_iff:
  "large_gap df \<longleftrightarrow>
     (\<exists>i. Suc i < length (df_index df) \<and> df_index df ! Suc i - df_index df ! i > 5)"
  unfolding large_gap_def max_days_gt set_date_diff by blast

lemma missing_warning_shape:
  "missing_warning df = [] \<or> (\<exists>counts. missing_warning df = [Warning_missing counts])"
  by (simp add: missing_warning_def Let_def)

lemma missing_warning_iff:
  "missing_warning df \<noteq> [] \<longleftrightarrow> (\<exists>c \<in> set (df_columns df). None \<in> set (column_cells df c))"
proof -
  have "list_ex (\<lambda>(c, n). n > 0) (isnull_sum df) \<longleftrightarrow>
        (\<exists>c \<in> set (df_columns df). None \<in> set (column_cells df c))"
    by (auto simp: isnull_sum_def list_ex_iff filter_empty_conv)
  then show ?thesis by (simp add: missing_warning_def Let_def)
qed


text \<open>
  Claim C6. On a frame that has the columns \<^verbatim>\<open>vix\<close> and \<^verbatim>\<open>cnn_fg\<close>, \<^verbatim>\<open>_validate_data\<close>
  raises a ValueError if and only if some VIX value is below 0 or some fear-and-greed
  value is below 0 or above 100, and it logs the warning about missing values if and only
  if some cell of some column is NaN. On the index of dates of a merged frame it raises
  nothing else, and it logs the warning about the dates if and only if nothing is out of
  range and two consecutive dates of the index are more than 5 days apart; when nothing is
  out of range it returns, and its log holds these two warnings at most.
\<close>

theorem validate_data_fatal_iff:
  assumes "''vix'' \<in> set (df_columns df)" and "''cnn_fg'' \<in> set (df_columns df)"
  shows "((\<exists>m. snd (validate_data df) = Inl (ValueError m)) \<longleftrightarrow>
            (\<exists>v. Some v \<in> set (column_cells df ''vix'') \<and> v < 0) \<or>
            (\<exists>v. Some v \<in> set (column_cells df ''cnn_fg'') \<and> (v < 0 \<or> 100 < v))) \<and>
         ((\<exists>counts. Warning_missing counts \<in> set (fst (validate_data df))) \<longleftrightarrow>
            (\<exists>c \<in> set (df_columns df). None \<in> set (column_cells df c))) \<and>
         (df_datetime df \<longrightarrow>
            ((\<exists>e. snd (validate_data df) = Inl e) \<longleftrightarrow>
               (\<exists>v. Some v \<in> set (column_cells df ''vix'') \<and> v < 0) \<or>
               (\<exists>v. Some v \<in> set (column_cells df ''cnn_fg'') \<and> (v < 0 \<or> 100 < v))) \<and>
            (Warning_date_gap \<in> set (fst (validate_data df)) \<longleftrightarrow>
               snd (validate_data df) = Inr () \<and>
               (\<exists>i. Suc i < length (df_index df) \<and>
                    df_index df ! Suc i - df_index df ! i > 5)) \<and>
            (snd (validate_data df) = Inr () \<longrightarrow>
               (\<forall>l \<in> set (fst (validate_data df)).
                  l = Warning_date_gap \<or> (\<exists>counts. l = Warning_missing counts))))"
proof -
  let ?rv = "(\<exists>v. Some v \<in> set (column_cells df ''vix'') \<and> v < 0) \<or>
             (\<exists>v. Some v \<in> set (column_cells df ''cnn_fg'') \<and> (v < 0 \<or> 100 < v))"
  have rv: "?rv \<longleftrightarrow>
      list_ex (\<lambda>v. cell_lt v 0) (column_cells df ''vix'') \<or>
      list_ex (\<lambda>v. cell_lt v 0) (column_cells df ''cnn_fg'') \<or>
      list_ex (\<lambda>v. cell_gt v 100) (column_cells df ''cnn_fg'')"
    by (auto simp: list_ex_iff cell_lt_iff cell_gt_iff)
  note v = validate_data_cases[OF assms]
  have val: "(\<exists>m. snd (validate_data df) = Inl (ValueError m)) \<longleftrightarrow> ?rv"
    unfolding rv v by auto
  have mw: "(\<exists>counts. Warning_missing counts \<in> set (missing_warning df)) \<longleftrightarrow>
            (\<exists>c \<in> set (df_columns df). None \<in> set (column_cells df c))"
    using missing_warning_shape[of df] missing_warning_iff[of df] by auto
  have miss: "(\<exists>counts. Warning_missing counts \<in> set (fst (validate_data df))) \<longleftrightarrow>
            (\<exists>c \<in> set (df_columns df). None \<in> set (column_cells df c))"
    unfolding mw[symmetric] v by auto
  have nogap: "Warning_date_gap \<notin> set (missing_warning df)"
    using missing_warning_shape[of df] by auto
  have only: "\<forall>l \<in> set (missing_warning df). \<exists>counts. l = Warning_missing counts"
    using missing_warning_shape[of df] by auto
  have dt: "((\<exists>e. snd (validate_data df) = Inl e) \<longleftrightarrow> ?rv) \<and>
            (Warning_date_gap \<in> set (fst (validate_data df)) \<longleftrightarrow>
               snd (validate_data df) = Inr () \<and>
               (\<exists>i. Suc i < length (df_index df) \<and>
                    df_index df ! Suc i - df_index df ! i > 5)) \<and>
            (snd (validate_data df) = Inr () \<longrightarrow>
               (\<forall>l \<in> set (fst (validate_data df)).
                  l = Warning_date_gap \<or> (\<exists>counts. l = Warning_missing counts)))"
    if "df_datetime df"
    unfolding rv v large_gap_iff[symmetric] using that nogap only by auto
  from val miss dt show ?thesis by blast
qed

lemmas frame_eval =
  validate_data_def df_col_def column_cells_def df_cell_def missing_warning_def
  isnull_sum_def gap_check_def large_gap_def max_days_def df_index_def cell_lt_def
  cell_gt_def Let_def

theorem validate_data_fatal_iff_witness:
  "validate_data frame_nulls_gap =
     ([Warning_missing [(''vix'', 1)], Warning_date_gap], Inr ()) \<and>
   validate_data frame_negative_vix =
     ([Error_negative_vix], Inl (ValueError ''Invalid VIX data''))"
proof -
  have a: "validate_data frame_nulls_gap =
     ([Warning_missing [(''vix'', 1)], Warning_date_gap], Inr ())"
    by (simp add: frame_eval frame_nulls_gap_def)
  have b: "validate_data frame_negative_vix =
     ([Error_negative_vix], Inl (ValueError ''Invalid VIX data''))"
    by (simp add: frame_eval frame_negative_vix_def)
  have c: "''vix'' \<in> set (df_columns frame_nulls_gap)"
     "''cnn_fg'' \<in> set (df_columns frame_nulls_gap)"
    by (simp_all add: frame_nulls_gap_def)
  from validate_data_fatal_iff[OF c] a b show ?thesis by simp
qed

lemma validate_data_in_range:
  assumes "''vix'' \<in> set (df_columns df)" and "''cnn_fg'' \<in> set (df_columns df)"
    and "df_datetime df"
    and "\<forall>v. Some v \<in> set (column_cells df ''vix'') \<longrightarrow> 0 \<le> v"
    and "\<forall>v. Some v \<in> set (column_cells df ''cnn_fg'') \<longrightarrow> 0 \<le> v \<and> v \<le> 100"
  shows "validate_data df =
           (missing_warning df @ (if large_gap df then [Warning_date_gap] else []), Inr ())"
proof -
  have "\<not> list_ex (\<lambda>v. cell_lt v 0) (column_cells df ''vix'')"
    using assms(4) by (fastforce simp: list_ex_iff cell_lt_iff)
  moreover have "\<not> list_ex (\<lambda>v. cell_lt v 0) (column_cells df ''cnn_fg'')"
    using assms(5) by (fastforce simp: list_ex_iff cell_lt_iff)
  moreover have "\<not> list_ex (\<lambda>v. cell_gt v 100) (column_cells df ''cnn_fg'')"
    using assms(5) by (fastforce simp: list_ex_iff cell_gt_iff)
  ultimately show ?thesis
    using assms(3) by (simp add: validate_data_cases[OF assms(1,2)])
qed

text \<open>
  Claim C9. NaN compares false against every bound: a frame with an index of dates whose
  VIX and fear-and-greed values, where they are numbers, are in range passes
  \<^verbatim>\<open>_validate_data\<close> whatever cells are NaN, with no more than the missing-value warning
  when no two consecutive dates are more than 5 days apart. The run goes on to the signal
  rules, which label every row, and label HOLD the rows with a NaN in one of the two
  fields.
\<close>

theorem validate_data_nan_passes:
  assumes "''vix'' \<in> set (df_columns df)" and "''cnn_fg'' \<in> set (df_columns df)"
    and "wf_frame df" and "df_datetime df"
    and "\<forall>v. Some v \<in> set (column_cells df ''vix'') \<longrightarrow> 0 \<le> v"
    and "\<forall>v. Some v \<in> set (column_cells df ''cnn_fg'') \<longrightarrow> 0 \<le> v \<and> v \<le> 100"
  shows "snd (validate_data df) = Inr () \<and>
         ((\<forall>i. Suc i < length (df_index df) \<longrightarrow>
               df_index df ! Suc i - df_index df ! i \<le> 5) \<longrightarrow>
            fst (validate_data df) = [] \<or>
            (\<exists>counts. fst (validate_data df) = [Warning_missing counts])) \<and>
         (\<exists>sig. snd (run_stages df) =
                  Inr \<lparr>frame = df, signal = sig, stats = print_signal_stats sig\<rparr> \<and>
                length sig = length (df_rows df) \<and>
                (\<forall>i<length sig.
                   df_cell (snd (df_rows df ! i)) ''vix'' = None \<or>
                   df_cell (snd (df_rows df ! i)) ''cnn_fg'' = None \<longrightarrow> sig ! i = ''HOLD''))"
proof -
  note v = validate_data_in_range[OF assms(1,2,4,5,6)]
  let ?f = "generate_signal default_generator"
  have rows: "\<forall>(d, r) \<in> set (df_rows df).
      \<exists>l. ?f r = Inr l \<and>
        (df_cell r ''vix'' = None \<or> df_cell r ''cnn_fg'' = None \<longrightarrow> l = ''HOLD'')"
  proof (clarify)
    fix d r assume "(d, r) \<in> set (df_rows df)"
    with assms(3) have "map fst r = df_columns df"
      by (auto simp: wf_frame_def list_all_iff)
    with assms(1,2) show "\<exists>l. ?f r = Inr l \<and>
        (df_cell r ''vix'' = None \<or> df_cell r ''cnn_fg'' = None \<longrightarrow> l = ''HOLD'')"
      by (intro generate_signal_present) simp_all
  qed
  then have "\<forall>(d, r) \<in> set (df_rows df). \<exists>l. ?f r = Inr l" by fast
  from apply_rows_total[OF this]
  have ap: "apply_rows ?f (df_rows df) = Inr (map (\<lambda>(d, r). projr (?f r)) (df_rows df))" .
  let ?sig = "map (\<lambda>(d, r). projr (?f r)) (df_rows df)"
  have run: "snd (run_stages df) =
      Inr \<lparr>frame = df, signal = ?sig, stats = print_signal_stats ?sig\<rparr>"
    by (simp add: run_stages_def v SignalGenerator_default_eq ap)
  have hold: "\<forall>i<length ?sig.
       df_cell (snd (df_rows df ! i)) ''vix'' = None \<or>
       df_cell (snd (df_rows df ! i)) ''cnn_fg'' = None \<longrightarrow> ?sig ! i = ''HOLD''"
  proof (intro allI impI)
    fix i assume i: "i < length ?sig"
      and nan: "df_cell (snd (df_rows df ! i)) ''vix'' = None \<or>
                df_cell (snd (df_rows df ! i)) ''cnn_fg'' = None"
    obtain d r where dr: "df_rows df ! i = (d, r)" by (cases "df_rows df ! i")
    with i have "(d, r) \<in> set (df_rows df)" by (metis length_map nth_mem)
    with rows nan dr obtain l where "?f r = Inr l" "l = ''HOLD''" by fastforce
    with i dr show "?sig ! i = ''HOLD''" by simp
  qed
  from run hold have ex: "\<exists>sig. snd (run_stages df) =
                  Inr \<lparr>frame = df, signal = sig, stats = print_signal_stats sig\<rparr> \<and>
                length sig = length (df_rows df) \<and>
                (\<forall>i<length sig.
                   df_cell (snd (df_rows df ! i)) ''vix'' = None \<or>
                   df_cell (snd (df_rows df ! i)) ''cnn_fg'' = None \<longrightarrow> sig ! i = ''HOLD'')"
    by (intro exI[of _ ?sig]) simp
  have small: "\<not> large_gap df"
    if "\<forall>i. Suc i < length (df_index df) \<longrightarrow> df_index df ! Suc i - df_index df ! i \<le> 5"
    using that unfolding large_gap_iff by (meson not_less)
  show ?thesis using v missing_warning_shape[of df] ex small by auto
qed

theorem validate_data_nan_passes_witness:
  "validate_data frame_nulls =
     ([Warning_missing [(''spy_price'', 1), (''vix'', 1), (''cnn_fg'', 1)]], Inr ()) \<and>
   snd (run_stages frame_nulls) =
     Inr \<lparr>frame = frame_nulls, signal = [''HOLD'', ''HOLD'', ''SELL''],
          stats = ([2], Some 2)\<rparr>"
proof -
  have c: "''vix'' \<in> set (df_columns frame_nulls)" "''cnn_fg'' \<in> set (df_columns frame_nulls)"
    "wf_frame frame_nulls" "df_datetime frame_nulls"
    by (simp_all add: frame_nulls_def wf_frame_def)
  have d: "\<forall>v. Some v \<in> set (column_cells frame_nulls ''vix'') \<longrightarrow> 0 \<le> v"
    "\<forall>v. Some v \<in> set (column_cells frame_nulls ''cnn_fg'') \<longrightarrow> 0 \<le> v \<and> v \<le> 100"
    by (auto simp: frame_nulls_def column_cells_def df_cell_def)
  have a: "validate_data frame_nulls =
     ([Warning_missing [(''spy_price'', 1), (''vix'', 1), (''cnn_fg'', 1)]], Inr ())"
    by (simp add: frame_eval frame_nulls_def)
  have sig: "apply_rows (generate_signal default_generator) (df_rows frame_nulls) =
     Inr [''HOLD'', ''HOLD'', ''SELL'']"
    by (simp add: frame_nulls_def generate_signal_def row_get_def default_generator_def)
  have st: "print_signal_stats [''HOLD'', ''HOLD'', ''SELL''] = ([2], Some 2)"
    by (simp add: print_signal_stats_def)
  have b: "snd (run_stages frame_nulls) =
     Inr \<lparr>frame = frame_nulls, signal = [''HOLD'', ''HOLD'', ''SELL''],
          stats = ([2], Some 2)\<rparr>"
    by (simp add: run_stages_def a SignalGenerator_default_eq sig st)
  from validate_data_nan_passes[OF c d] a b show ?thesis by simp
qed

text \<open>
  A frame whose index is not a DatetimeIndex, as the merge of files that have a header
  and no rows: \<^verbatim>\<open>_validate_data\<close> raises AttributeError at the test of the dates.
\<close>

lemma validate_data_no_datetime_index:
  "validate_data \<lparr>df_columns = [''spy_price'', ''vix'', ''cnn_fg''], df_rows = [],
                  df_datetime = False\<rparr> = ([], Inl (AttributeError ''days''))"
  by (simp add: frame_eval)

section \<open>Properties of the merge\<close>

lemma concat_some: "concat (map (\<lambda>v. case v of None \<Rightarrow> [] | Some s \<Rightarrow> [s]) (map Some ss)) = ss"
  by (induction ss) simp_all

lemma set_inner_index:
  "ss \<noteq> [] \<Longrightarrow> set (inner_index ss) = (\<Inter>s \<in> set ss. set (dates s))"
  by (cases ss) (auto simp: inner_index_def)

lemma distinct_inner_index:
  "ss \<noteq> [] \<Longrightarrow> distinct (dates (hd ss)) \<Longrightarrow> distinct (inner_index ss)"
  by (cases ss) (auto simp: inner_index_def)

lemma inner_index_single: "inner_index [s] = dates s"
  by (simp add: inner_index_def)

lemma concat_inner_index:
  assumes "ss \<noteq> []" and "\<forall>s \<in> set ss. distinct (dates s)"
  shows "\<exists>df. concat_inner (map Some ss) = Inr df \<and> df_index df = inner_index ss \<and>
              df_columns df = map sname ss \<and> df_datetime df = list_all s_datetime ss"
proof (cases "length ss = 1")
  case True
  then obtain s where s: "ss = [s]" by (cases ss) auto
  show ?thesis using assms
    by (simp add: concat_inner_def concat_some s df_index_def inner_index_single dates_def
        comp_def case_prod_unfold)
next
  case False
  with assms show ?thesis
    by (simp add: concat_inner_def concat_some df_index_def comp_def)
qed


lemma df_index_sort_index:
  "sorted (df_index (sort_index df))"
  "set (df_index (sort_index df)) = set (df_index df)"
  "distinct (df_index df) \<Longrightarrow> distinct (df_index (sort_index df))"
proof -
  show "sorted (df_index (sort_index df))"
    by (simp add: df_index_def sort_index_def sorted_sort_key)
  show "set (df_index (sort_index df)) = set (df_index df)"
    by (simp add: df_index_def sort_index_def)
  have "mset (map fst (sort_key fst (df_rows df))) = mset (map fst (df_rows df))"
    by simp
  then show "distinct (df_index df) \<Longrightarrow> distinct (df_index (sort_index df))"
    unfolding df_index_def sort_index_def
    by (metis dataframe.select_convs(2) dataframe.surjective dataframe.update_convs(2)
        mset_eq_imp_distinct_iff)
qed

lemma merge_series_index:
  assumes "ss \<noteq> []" and "\<forall>s \<in> set ss. distinct (dates s)"
  shows "\<exists>df. merge_series (map Some ss) = Inr df \<and>
              set (df_index df) = (\<Inter>s \<in> set ss. set (dates s)) \<and>
              sorted (df_index df) \<and> distinct (df_index df) \<and>
              df_columns df = map sname ss \<and> df_datetime df = list_all s_datetime ss"
proof -
  from concat_inner_index[OF assms] obtain df0 where
    c: "concat_inner (map Some ss) = Inr df0" and i: "df_index df0 = inner_index ss"
    and n: "df_columns df0 = map sname ss"
    and t: "df_datetime df0 = list_all s_datetime ss"
    by blast
  from assms have "distinct (dates (hd ss))" by (cases ss) simp_all
  with assms(1) i have d: "distinct (df_index df0)" by (simp add: distinct_inner_index)
  have m: "merge_series (map Some ss) = Inr (sort_index df0)"
    by (simp add: merge_series_def c)
  have cols: "df_columns (sort_index df0) = map sname ss"
    "df_datetime (sort_index df0) = list_all s_datetime ss"
    using n t by (simp_all add: sort_index_def)
  show ?thesis
    using m cols d i assms(1)
    by (simp add: df_index_sort_index set_inner_index)
qed

text \<open>
  Claim C4. For a non-empty list of series, each with unique dates, the merge returns a
  frame whose dates are exactly the dates present in every series, in ascending order
  whatever the order of the dates in the inputs; any reordering of the series gives the
  same dates; and joining a split of the list part by part gives the same dates as joining
  it at once (the dates of the whole are the common dates of the parts).
\<close>

theorem merge_series_intersection_sorted:
  assumes "ss \<noteq> []" and "\<forall>s \<in> set ss. distinct (dates s)"
  shows "\<exists>df. merge_series (map Some ss) = Inr df \<and>
           set (df_index df) = (\<Inter>s \<in> set ss. set (dates s)) \<and>
           sorted (df_index df) \<and>
           (\<forall>ss'. mset ss' = mset ss \<longrightarrow>
              (\<exists>df'. merge_series (map Some ss') = Inr df' \<and> df_index df' = df_index df)) \<and>
           (\<forall>xs ys. ss = xs @ ys \<and> xs \<noteq> [] \<and> ys \<noteq> [] \<longrightarrow>
              (\<exists>dx dy. merge_series (map Some xs) = Inr dx \<and>
                       merge_series (map Some ys) = Inr dy \<and>
                       set (df_index df) = set (df_index dx) \<inter> set (df_index dy)))"
proof -
  from merge_series_index[OF assms] obtain df where
    df: "merge_series (map Some ss) = Inr df"
      "set (df_index df) = (\<Inter>s \<in> set ss. set (dates s))"
      "sorted (df_index df)" "distinct (df_index df)"
    by blast
  have perm: "\<exists>df'. merge_series (map Some ss') = Inr df' \<and> df_index df' = df_index df"
    if "mset ss' = mset ss" for ss'
  proof -
    from that have eq: "set ss' = set ss" by (metis set_mset_mset)
    from that assms(1) have ne: "ss' \<noteq> []" by auto
    from eq assms(2) have "\<forall>s \<in> set ss'. distinct (dates s)" by simp
    from merge_series_index[OF ne this] obtain df' where
      df': "merge_series (map Some ss') = Inr df'"
        "set (df_index df') = (\<Inter>s \<in> set ss'. set (dates s))"
        "sorted (df_index df')" "distinct (df_index df')"
      by blast
    from df'(2) df(2) eq have "set (df_index df') = set (df_index df)" by simp
    with df'(3,4) df(3,4) have "df_index df' = df_index df"
      by (intro sorted_distinct_set_unique)
    with df'(1) show ?thesis by blast
  qed
  have pair: "\<exists>dx dy. merge_series (map Some xs) = Inr dx \<and>
                       merge_series (map Some ys) = Inr dy \<and>
                       set (df_index df) = set (df_index dx) \<inter> set (df_index dy)"
    if "ss = xs @ ys" "xs \<noteq> []" "ys \<noteq> []" for xs ys
  proof -
    from that(1) assms(2) have dx: "\<forall>s \<in> set xs. distinct (dates s)"
      and dy: "\<forall>s \<in> set ys. distinct (dates s)" by simp_all
    from merge_series_index[OF that(2) dx] obtain fx where
      fx: "merge_series (map Some xs) = Inr fx"
        "set (df_index fx) = (\<Inter>s \<in> set xs. set (dates s))" by blast
    from merge_series_index[OF that(3) dy] obtain fy where
      fy: "merge_series (map Some ys) = Inr fy"
        "set (df_index fy) = (\<Inter>s \<in> set ys. set (dates s))" by blast
    have "set (df_index df) = set (df_index fx) \<inter> set (df_index fy)"
      unfolding df(2) fx(2) fy(2) that(1) by auto
    with fx(1) fy(1) show ?thesis by blast
  qed
  from df perm pair show ?thesis by blast
qed

theorem merge_series_intersection_sorted_witness:
  "merge_series [Some series_a, Some series_b, Some series_c] =
     Inr \<lparr>df_columns = [''spy_price'', ''vix'', ''cnn_fg''],
          df_rows =
            [(2, [(''spy_price'', Some 465), (''vix'', Some 10), (''cnn_fg'', Some 85)]),
             (3, [(''spy_price'', Some 470), (''vix'', Some 32), (''cnn_fg'', Some 15)])],
          df_datetime = True\<rparr> \<and>
   merged_index [series_c, series_a, series_b] = [2, 3]"
proof -
  have ne: "[series_a, series_b, series_c] \<noteq> []" by simp
  have di: "\<forall>s \<in> set [series_a, series_b, series_c]. distinct (dates s)"
    by (simp add: series_a_def series_b_def series_c_def dates_def)
  have a: "merge_series [Some series_a, Some series_b, Some series_c] =
     Inr \<lparr>df_columns = [''spy_price'', ''vix'', ''cnn_fg''],
          df_rows =
            [(2, [(''spy_price'', Some 465), (''vix'', Some 10), (''cnn_fg'', Some 85)]),
             (3, [(''spy_price'', Some 470), (''vix'', Some 32), (''cnn_fg'', Some 15)])],
          df_datetime = True\<rparr>"
    by (simp add: merge_series_def concat_inner_def inner_index_def dates_def sort_index_def
        series_cell_def series_a_def series_b_def series_c_def)
  have b: "merged_index [series_c, series_a, series_b] = [2, 3]"
    by (simp add: merged_index_def merge_series_def concat_inner_def inner_index_def dates_def
        sort_index_def df_index_def series_cell_def series_a_def series_b_def series_c_def)
  from merge_series_intersection_sorted[OF ne di] a b show ?thesis by simp
qed

section \<open>Properties of the loading\<close>

lemma try_files_outcomes:
  "try_files fs key files col sd w =
     (case dropWhile file_missing (load_outcomes fs files col w) of
        [] \<Rightarrow> (Inr sd, end_world fs files col w)
      | (Inr s, w') # rest \<Rightarrow> (Inr (dict_set sd key s), w')
      | (Inl e, w') # rest \<Rightarrow> (Inl e, w'))"
proof (induction files arbitrary: w)
  case Nil
  show ?case by simp
next
  case (Cons f files)
  obtain r w' where l: "load_series fs f (Some col) w = (r, w')"
    by (cases "load_series fs f (Some col) w")
  have outs: "load_outcomes fs (f # files) col w = (r, w') # load_outcomes fs files col w'"
    using l by simp
  have endw: "end_world fs (f # files) col w = end_world fs files col w'"
    using l by simp
  show ?case
  proof (cases r)
    case (Inr s)
    have "\<not> file_missing (Inr s, w')" by (simp add: file_missing_def)
    moreover have "try_files fs key (f # files) col sd w = (Inr (dict_set sd key s), w')"
      using l Inr by simp
    ultimately show ?thesis
      by (simp only: outs Inr dropWhile.simps if_False list.case prod.case sum.case)
  next
    case (Inl e)
    show ?thesis
    proof (cases "is_FileNotFoundError e")
      case True
      then have "file_missing (Inl e, w')" by (simp add: file_missing_def)
      moreover have "try_files fs key (f # files) col sd w = try_files fs key files col sd w'"
        using l Inl True by simp
      ultimately show ?thesis
        by (simp only: outs endw Inl dropWhile.simps if_True Cons.IH)
    next
      case False
      then have "\<not> file_missing (Inl e, w')" by (simp add: file_missing_def)
      moreover have "try_files fs key (f # files) col sd w = (Inl e, w')"
        using l Inl False by simp
      ultimately show ?thesis
        by (simp only: outs Inl dropWhile.simps if_False list.case prod.case sum.case)
    qed
  qed
qed

lemma map_of_dict_set: "map_of (dict_set sd k v) k = Some v"
  by (induction sd) auto

text \<open>
  Claim C5, amended. The candidates are tried in order. A candidate whose load (the three
  attempts of the retry included) ends in FileNotFoundError is passed over; the first
  candidate whose load ends otherwise decides: its series is stored when it loaded, and
  its exception leaves the resolution when it failed in any other way. When every
  candidate ended in FileNotFoundError and the data set is required (and not yet in the
  dictionary), the resolution raises a FileNotFoundError whose message names the data set.
\<close>

theorem load_source_first_not_missing:
  "load_source fs key (ManyFiles files col required) sd w =
     (case dropWhile file_missing (load_outcomes fs files col w) of
        [] \<Rightarrow>
          if map_of sd key = None \<and> required
          then (Inl (FileNotFoundError [key]), end_world fs files col w)
          else (Inr sd, end_world fs files col w)
      | (Inr s, w') # rest \<Rightarrow> (Inr (dict_set sd key s), w')
      | (Inl e, w') # rest \<Rightarrow> (Inl e, w'))"
proof (cases "dropWhile file_missing (load_outcomes fs files col w)")
  case Nil
  have t: "try_files fs key files col sd w = (Inr sd, end_world fs files col w)"
    by (simp only: try_files_outcomes Nil list.case)
  show ?thesis
    by (simp only: Nil list.case) (simp add: load_source_def t)
next
  case (Cons x rest)
  obtain r w' where x: "x = (r, w')" by (cases x)
  show ?thesis
  proof (cases r)
    case (Inl e)
    have t: "try_files fs key files col sd w = (Inl e, w')"
      by (simp only: try_files_outcomes Cons x Inl list.case prod.case sum.case)
    show ?thesis
      by (simp only: Cons x Inl list.case prod.case sum.case) (simp add: load_source_def t)
  next
    case (Inr s)
    have t: "try_files fs key files col sd w = (Inr (dict_set sd key s), w')"
      by (simp only: try_files_outcomes Cons x Inr list.case prod.case sum.case)
    show ?thesis
      by (simp only: Cons x Inr list.case prod.case sum.case)
         (simp add: load_source_def t map_of_dict_set)
  qed
qed

text \<open>The spec's example: a missing candidate, then a valid one.\<close>

lemmas load_eval =
  load_series_def retry_on_error_def wrapper_loop.simps load_series_body_def
  load_series_try_def series_of_frame_def fs_sample_def csv_frame_def df_cell_def

lemma load_good:
  "load_series fs_sample ''good.csv'' (Some ''cnn_fg'') () =
     (Inr (Some \<lparr>sname = ''cnn_fg'', sdata = [(1, Some 15), (2, Some 85)],
                 s_datetime = True\<rparr>), ())"
  by (simp add: load_eval)

lemma load_bad:
  "load_series fs_sample ''bad.csv'' (Some ''cnn_fg'') () =
     (Inl (ValueError ''Expected exactly 1 data column in bad.csv''), ())"
  by (simp add: load_eval)

lemma load_missing:
  "load_series fs_sample ''missing.csv'' (Some ''cnn_fg'') () =
     (Inl (FileNotFoundError [''missing.csv'']), ())"
  by (simp add: load_eval)

lemma load_missing2:
  "load_series fs_sample ''missing2.csv'' (Some ''cnn_fg'') () =
     (Inl (FileNotFoundError [''missing2.csv'']), ())"
  by (simp add: load_eval)

theorem load_source_first_not_missing_witness:
  "load_source fs_sample ''cnn_fg''
       (ManyFiles [''missing.csv'', ''good.csv''] ''cnn_fg'' True) [] () =
     (Inr [(''cnn_fg'', Some \<lparr>sname = ''cnn_fg'', sdata = [(1, Some 15), (2, Some 85)],
                              s_datetime = True\<rparr>)], ())"
  using load_source_first_not_missing[of fs_sample "''cnn_fg''" "[''missing.csv'', ''good.csv'']"
      "''cnn_fg''" True "[]" "()"]
  by (simp add: load_good load_missing file_missing_def is_FileNotFoundError_def)

text \<open>
  Claim C5, as the spec states it: a failed load of any kind goes on to the next
  candidate, and the final error names the data set and all candidates tried. With
  \<^verbatim>\<open>bad.csv\<close> before \<^verbatim>\<open>good.csv\<close> the resolution raises the ValueError of
  \<^verbatim>\<open>bad.csv\<close> although \<^verbatim>\<open>good.csv\<close> loads; and with two missing candidates the error
  carries the key \<^verbatim>\<open>cnn_fg\<close> and neither file name.
\<close>

theorem load_source_aborts_on_other_error:
  "load_source fs_sample ''cnn_fg'' (ManyFiles [''bad.csv'', ''good.csv''] ''cnn_fg'' True) [] () =
     (Inl (ValueError ''Expected exactly 1 data column in bad.csv''), ()) \<and>
   load_series fs_sample ''good.csv'' (Some ''cnn_fg'') () =
     (Inr (Some \<lparr>sname = ''cnn_fg'', sdata = [(1, Some 15), (2, Some 85)],
                 s_datetime = True\<rparr>), ()) \<and>
   load_source fs_sample ''cnn_fg''
       (ManyFiles [''missing.csv'', ''missing2.csv''] ''cnn_fg'' True) [] () =
     (Inl (FileNotFoundError [''cnn_fg'']), ())"
  by (simp add: load_source_def load_good load_bad load_missing load_missing2
        is_FileNotFoundError_def)

section \<open>The run on series with no common date\<close>









text \<open>
  The run on files that have a header and no rows: the series load, their index is not a
  DatetimeIndex, and \<^verbatim>\<open>main\<close> raises the AttributeError of the validation.
\<close>

lemma main_header_only_files:
  "main fs_headers [] = (Inl (AttributeError ''days''), [Info_shape 0 3, Error_main])"
proof -
  have l: "\<And>w. load_series fs_headers ''spy.csv'' (Some ''spy_price'') w =
      (Inr (Some \<lparr>sname = ''spy_price'', sdata = [], s_datetime = False\<rparr>), w)"
    "\<And>w. load_series fs_headers ''vix.csv'' (Some ''vix'') w =
      (Inr (Some \<lparr>sname = ''vix'', sdata = [], s_datetime = False\<rparr>), w)"
    "\<And>w. load_series fs_headers ''fear_greed_historical.csv'' (Some ''cnn_fg'') w =
      (Inr (Some \<lparr>sname = ''cnn_fg'', sdata = [], s_datetime = False\<rparr>), w)"
    by (simp_all add: load_series_def retry_on_error_def wrapper_loop.simps
        load_series_body_def load_series_try_def series_of_frame_def fs_headers_def
        csv_frame_def)
  have la: "load_all fs_headers data_sources [] [] =
      (Inr [(''spy'', Some \<lparr>sname = ''spy_price'', sdata = [], s_datetime = False\<rparr>),
            (''vix'', Some \<lparr>sname = ''vix'', sdata = [], s_datetime = False\<rparr>),
            (''cnn_fg'', Some \<lparr>sname = ''cnn_fg'', sdata = [], s_datetime = False\<rparr>)], [])"
    by (simp add: data_sources_def load_source_def l)
  have p: "process
      [(''spy'', Some \<lparr>sname = ''spy_price'', sdata = [], s_datetime = False\<rparr>),
       (''vix'', Some \<lparr>sname = ''vix'', sdata = [], s_datetime = False\<rparr>),
       (''cnn_fg'', Some \<lparr>sname = ''cnn_fg'', sdata = [], s_datetime = False\<rparr>)] =
      ([Info_shape 0 3], Inl (AttributeError ''days''))"
    by (simp add: process_def merge_series_def concat_inner_def inner_index_def dates_def
        sort_index_def run_stages_def frame_eval)
  have lg: "\<And>l w. logger fs_headers l w = w @ [l]"
    by (simp add: fs_headers_def)
  show ?thesis
    by (simp add: main_def la p lg)
qed

section \<open>Properties of the retry decorator\<close>

lemma wrapper_loop_success:
  "a < m \<Longrightarrow> func s = (Inr v, s') \<Longrightarrow> wrapper_loop m sleep func a s = (Inr (Some v), s')"
  by (simp add: wrapper_loop.simps)

lemma wrapper_loop_last:
  "a = m - 1 \<Longrightarrow> func s = (Inl e, s') \<Longrightarrow> wrapper_loop m sleep func a s = (Inl e, s')"
  by (simp add: wrapper_loop.simps)

lemma wrapper_loop_retry:
  "a < m - 1 \<Longrightarrow> func s = (Inl e, s') \<Longrightarrow>
   wrapper_loop m sleep func a s = wrapper_loop m sleep func (a + 1) (sleep s')"
  by (subst wrapper_loop.simps) simp

lemma wrapper_loop_exhausted:
  "\<not> a < m \<Longrightarrow> wrapper_loop m sleep func a s = (Inr None, s)"
  by (simp add: wrapper_loop.simps)

lemma counted_apply: "func s = (r, s') \<Longrightarrow> counted func (n, s) = (r, (Suc n, s'))"
  by (simp add: counted_def)

lemma counted_sleep_apply: "counted_sleep sleep (n, s) = (n, sleep s)"
  by (simp add: counted_sleep_def)

lemma attempt_result_0: "attempt_result sleep func s 0 = fst (func s)"
  by (simp add: attempt_result_def)

lemma attempt_result_Suc:
  "attempt_result sleep func s (Suc i) = attempt_result sleep func (sleep (snd (func s))) i"
  by (simp add: attempt_result_def)

lemma wrapper_loop_counted:
  assumes "a < m"
  shows "\<exists>k. wrapper_loop m (counted_sleep sleep) (counted func) a (c, t) =
           (fst (wrapper_loop m sleep func a t), (c + k, snd (wrapper_loop m sleep func a t))) \<and>
         1 \<le> k \<and> int k \<le> m - a \<and>
         snd (wrapper_loop m sleep func a t) = snd (func (state_before sleep func t (k - 1))) \<and>
         (\<forall>i<k - 1. isl (attempt_result sleep func t i)) \<and>
         (case fst (wrapper_loop m sleep func a t) of
            Inr (Some v) \<Rightarrow> attempt_result sleep func t (k - 1) = Inr v
          | Inl e \<Rightarrow> int k = m - a \<and> attempt_result sleep func t (k - 1) = Inl e
          | Inr None \<Rightarrow> False)"
  using assms
proof (induction m sleep func a t arbitrary: c rule: wrapper_loop.induct)
  case (1 m sleep func a t)
  obtain r t' where ft: "func t = (r, t')" by (cases "func t")
  show ?case
  proof (cases r)
    case (Inr v)
    have "wrapper_loop m sleep func a t = (Inr (Some v), t')"
      using 1(2) ft Inr by (simp add: wrapper_loop_success)
    moreover have "wrapper_loop m (counted_sleep sleep) (counted func) a (c, t) = (Inr (Some v), (Suc c, t'))"
      using 1(2) ft Inr by (simp add: wrapper_loop_success counted_apply)
    ultimately show ?thesis
      using ft Inr 1(2) by (intro exI[of _ 1]) (simp add: attempt_result_0)
  next
    case (Inl e)
    show ?thesis
    proof (cases "a = m - 1")
      case True
      have "wrapper_loop m sleep func a t = (Inl e, t')"
        using True ft Inl by (simp add: wrapper_loop_last)
      moreover have "wrapper_loop m (counted_sleep sleep) (counted func) a (c, t) = (Inl e, (Suc c, t'))"
        using True ft Inl by (simp add: wrapper_loop_last counted_apply)
      ultimately show ?thesis
        using ft Inl True by (intro exI[of _ 1]) (simp add: attempt_result_0)
    next
      case False
      with 1(2) have lt: "a + 1 < m" and lt': "a < m - 1" by simp_all
      from "1.IH"[OF 1(2) ft[symmetric] Inl False lt, of "Suc c"]
      obtain k where k: "wrapper_loop m (counted_sleep sleep) (counted func) (a + 1) (Suc c, sleep t') =
           (fst (wrapper_loop m sleep func (a + 1) (sleep t')), (Suc c + k, snd (wrapper_loop m sleep func (a + 1) (sleep t'))))"
        "1 \<le> k" "int k \<le> m - (a + 1)"
        "snd (wrapper_loop m sleep func (a + 1) (sleep t')) = snd (func (state_before sleep func (sleep t') (k - 1)))"
        "\<forall>i<k - 1. isl (attempt_result sleep func (sleep t') i)"
        "(case fst (wrapper_loop m sleep func (a + 1) (sleep t')) of
            Inr (Some v) \<Rightarrow> attempt_result sleep func (sleep t') (k - 1) = Inr v
          | Inl e \<Rightarrow> int k = m - (a + 1) \<and> attempt_result sleep func (sleep t') (k - 1) = Inl e
          | Inr None \<Rightarrow> False)"
        by blast
      have step: "wrapper_loop m sleep func a t = wrapper_loop m sleep func (a + 1) (sleep t')"
        using ft Inl lt' by (simp add: wrapper_loop_retry)
      have stepc: "wrapper_loop m (counted_sleep sleep) (counted func) a (c, t) =
          wrapper_loop m (counted_sleep sleep) (counted func) (a + 1) (Suc c, sleep t')"
        using ft Inl lt'
        by (simp add: wrapper_loop_retry[where s'="(Suc c, t')"] counted_apply counted_sleep_apply)
      have shift: "\<And>i. state_before sleep func t (Suc i) = state_before sleep func (sleep t') i"
        using ft by simp
      have ar0: "attempt_result sleep func t 0 = Inl e"
        using ft Inl by (simp add: attempt_result_0)
      have arS: "\<And>i. attempt_result sleep func t (Suc i) = attempt_result sleep func (sleep t') i"
        using ft by (simp add: attempt_result_Suc)
      have kk: "Suc k - 1 = Suc (k - 1)" using k(2) by simp
      have all: "\<forall>i<Suc k - 1. isl (attempt_result sleep func t i)"
      proof (intro allI impI)
        fix i assume "i < Suc k - 1"
        then show "isl (attempt_result sleep func t i)"
          using k(5) ar0 arS by (cases i) auto
      qed
      have res: "(case fst (wrapper_loop m sleep func (a + 1) (sleep t')) of
            Inr (Some v) \<Rightarrow> attempt_result sleep func t (Suc k - 1) = Inr v
          | Inl e \<Rightarrow> int (Suc k) = m - a \<and> attempt_result sleep func t (Suc k - 1) = Inl e
          | Inr None \<Rightarrow> False)"
        using k(6) by (simp only: kk arS) (auto split: sum.splits option.splits)
      have st: "snd (wrapper_loop m sleep func (a + 1) (sleep t')) =
           snd (func (state_before sleep func t (Suc k - 1)))"
        using k(4) by (simp only: kk shift)
      have cnt: "wrapper_loop m (counted_sleep sleep) (counted func) a (c, t) =
           (fst (wrapper_loop m sleep func (a + 1) (sleep t')),
            (c + Suc k, snd (wrapper_loop m sleep func (a + 1) (sleep t'))))"
        using k(1) stepc by simp
      have bound: "1 \<le> Suc k" "int (Suc k) \<le> m - a" using k(3) by simp_all
      show ?thesis
        unfolding step
        using cnt bound st all res by (intro exI[of _ "Suc k"]) blast
    qed
  qed
qed


text \<open>The trailing \<^verbatim>\<open>return None\<close> is what a non-positive \<open>max_retries\<close> gives.\<close>

lemma retry_on_error_nonpositive:
  "m \<le> 0 \<Longrightarrow> retry_on_error m sleep func s = (Inr None, s)"
  by (simp add: retry_on_error_def wrapper_loop_exhausted)

text \<open>
  Claim C8. For \<open>max_retries \<ge> 1\<close> the wrapper invokes the operation \<open>k\<close> times with
  \<open>1 \<le> k \<le> max_retries\<close> (the counter of the instrumented run); the first \<open>k - 1\<close>
  invocations failed; when the wrapper returns a value it is the value invocation \<open>k\<close>
  returned, and nothing is invoked after it; when the wrapper raises, \<open>k = max_retries\<close>
  and the exception is the one the last invocation raised.
\<close>

theorem retry_on_error_attempts:
  assumes "1 \<le> m"
  shows "\<exists>k. retry_on_error m (counted_sleep sleep) (counted func) (0, s) =
           (fst (retry_on_error m sleep func s), (k, snd (retry_on_error m sleep func s))) \<and>
         1 \<le> k \<and> int k \<le> m \<and>
         snd (retry_on_error m sleep func s) = snd (func (state_before sleep func s (k - 1))) \<and>
         (\<forall>i<k - 1. isl (attempt_result sleep func s i)) \<and>
         (case fst (retry_on_error m sleep func s) of
            Inr (Some v) \<Rightarrow> attempt_result sleep func s (k - 1) = Inr v
          | Inl e \<Rightarrow> int k = m \<and> attempt_result sleep func s (k - 1) = Inl e
          | Inr None \<Rightarrow> False)"
proof -
  from assms have "0 < m" by simp
  from wrapper_loop_counted[OF this, of sleep func 0 s, unfolded diff_zero add_0]
  show ?thesis unfolding retry_on_error_def .
qed

theorem retry_on_error_attempts_witness:
  "retry_on_error 3 (counted_sleep id) (counted flaky) (0, 0) = (Inr (Some 7), (3, 3)) \<and>
   retry_on_error 3 id flaky 0 = (Inr (Some 7), 3) \<and>
   attempt_result id flaky 0 0 = Inl PermissionError \<and>
   attempt_result id flaky 0 1 = Inl PermissionError \<and>
   attempt_result id flaky 0 2 = Inr 7"
proof -
  have ev: "retry_on_error 3 id flaky 0 = (Inr (Some 7), 3)"
    by (simp add: retry_on_error_def wrapper_loop.simps flaky_def)
  have evc: "retry_on_error 3 (counted_sleep id) (counted flaky) (0, 0) = (Inr (Some 7), (3, 3))"
    by (simp add: retry_on_error_def wrapper_loop.simps flaky_def counted_def counted_sleep_def)
  have ar: "attempt_result id flaky 0 0 = Inl PermissionError"
    "attempt_result id flaky 0 1 = Inl PermissionError"
    "attempt_result id flaky 0 2 = Inr 7"
    by (simp_all add: attempt_result_def flaky_def numeral_2_eq_2)
  from retry_on_error_attempts[of 3 id flaky 0] ev evc ar show ?thesis by simp
qed

text \<open>
  Claim C10. For \<open>max_retries \<ge> 1\<close> the wrapper returns a value that one of the first
  \<open>max_retries\<close> invocations returned, or raises the exception of invocation
  \<open>max_retries - 1\<close>; it never takes the trailing \<^verbatim>\<open>return None\<close>.
\<close>

theorem retry_on_error_no_fabricated_None:
  assumes "1 \<le> m"
  shows "fst (retry_on_error m sleep func s) \<noteq> Inr None \<and>
         ((\<exists>i v. int i < m \<and> attempt_result sleep func s i = Inr v \<and>
                 fst (retry_on_error m sleep func s) = Inr (Some v)) \<or>
          (\<exists>e. attempt_result sleep func s (nat (m - 1)) = Inl e \<and>
               fst (retry_on_error m sleep func s) = Inl e))"
proof -
  from assms have "0 < m" by simp
  from wrapper_loop_counted[OF this, of sleep func 0 s, unfolded diff_zero add_0]
  obtain k where k: "1 \<le> k" "int k \<le> m"
    "(case fst (retry_on_error m sleep func s) of
            Inr (Some v) \<Rightarrow> attempt_result sleep func s (k - 1) = Inr v
          | Inl e \<Rightarrow> int k = m \<and> attempt_result sleep func s (k - 1) = Inl e
          | Inr None \<Rightarrow> False)"
    unfolding retry_on_error_def by blast
  show ?thesis
  proof (cases "fst (retry_on_error m sleep func s)")
    case (Inl e)
    with k have "int k = m" "attempt_result sleep func s (k - 1) = Inl e" by simp_all
    moreover from this have "nat (m - 1) = k - 1" by auto
    ultimately show ?thesis using Inl by simp
  next
    case (Inr ov)
    with k(3) obtain v where v: "ov = Some v" "attempt_result sleep func s (k - 1) = Inr v"
      by (cases ov) simp_all
    from k(1,2) have "int (k - 1) < m" by auto
    with v Inr show ?thesis by auto
  qed
qed

theorem retry_on_error_no_fabricated_None_witness:
  "fst (retry_on_error 2 id flaky 0) = Inl PermissionError \<and>
   attempt_result id flaky 0 (nat (2 - 1)) = Inl PermissionError \<and>
   fst (retry_on_error 3 id flaky 1) = Inr (Some 7) \<and>
   retry_on_error 0 id flaky 0 = (Inr None, 0)"
proof -
  have ev: "fst (retry_on_error 2 id flaky 0) = Inl PermissionError"
    "fst (retry_on_error 3 id flaky 1) = Inr (Some 7)"
    "retry_on_error 0 id flaky 0 = (Inr None, 0)"
    by (simp_all add: retry_on_error_def wrapper_loop.simps flaky_def)
  have ar: "attempt_result id flaky 0 (nat (2 - 1)) = Inl PermissionError"
    by (simp add: attempt_result_def flaky_def)
  from retry_on_error_no_fabricated_None[of 2 id flaky 0] ev ar show ?thesis by simp
qed

end
